theory Spec2Isabelle
  imports Main "HOL-Library.AList" "HOL-Library.Multiset"
begin

section \<open>The Modal component (src/components/Modal.tsx)\<close>

subsection \<open>Props\<close>

text \<open>
  \<^verbatim>\<open>interface ModalProps\<close>: an optional prop (\<^verbatim>\<open>size?\<close>, \<^verbatim>\<open>closeOnBackdropClick?\<close>,
  \<^verbatim>\<open>closeOnEscapeKey?\<close>, \<^verbatim>\<open>title?\<close>, \<^verbatim>\<open>footer?\<close>) is an option, \<open>None\<close> when the caller
  omits it (or passes \<^verbatim>\<open>undefined\<close>). A caller-supplied function is known only by its
  identity, which is all the dependency arrays compare; the renderable content is opaque.
\<close>

datatype Size = sm | md | lg | xl

type_synonym Callback = nat
type_synonym ReactNode = string

record ModalProps =
  isOpen :: bool
  onClose :: Callback
  title :: "string option"
  children :: ReactNode
  footer :: "ReactNode option"
  size' :: "Size option"
  closeOnBackdropClick :: "bool option"
  closeOnEscapeKey :: "bool option"

text \<open>
  The destructuring defaults of the parameter list (lines 19-28):
  \<^verbatim>\<open>size = 'md', closeOnBackdropClick = true, closeOnEscapeKey = true\<close>.
\<close>

definition arg_size :: "ModalProps \<Rightarrow> Size" where
  "arg_size p = (case size' p of None \<Rightarrow> md | Some s \<Rightarrow> s)"

definition arg_closeOnBackdropClick :: "ModalProps \<Rightarrow> bool" where
  "arg_closeOnBackdropClick p = (case closeOnBackdropClick p of None \<Rightarrow> True | Some b \<Rightarrow> b)"

definition arg_closeOnEscapeKey :: "ModalProps \<Rightarrow> bool" where
  "arg_closeOnEscapeKey p = (case closeOnEscapeKey p of None \<Rightarrow> True | Some b \<Rightarrow> b)"

subsection \<open>Rendered output and click handlers\<close>

text \<open>
  The JSX of lines 75-132 as a tree. Every element carries the name of its place in the
  JSX, its \<^verbatim>\<open>onClick\<close> handler if it has one, and its children. The three handlers are
  \<^verbatim>\<open>handleBackdropClick\<close> (lines 65-69), \<^verbatim>\<open>handleModalClick\<close> (lines 71-73) and the
  \<^verbatim>\<open>onClose\<close> prop itself, which the close button gets as its \<^verbatim>\<open>onClick\<close> (line 111).
  The caller's \<^verbatim>\<open>children\<close> and \<^verbatim>\<open>footer\<close> are opaque leaves: the component gives them no
  handler, and whatever handlers the caller put inside them are the caller's own.
\<close>

datatype ClickHandler = handleBackdropClick | handleModalClick | onCloseProp

datatype Part =
    Backdrop | Dialog | Header | TitleHeading | Body | Children | Footer | FooterContent
  | CloseButton | CloseIcon | CloseIconPath

datatype Elem = Elem Part "ClickHandler option" "Elem list"

definition sizeStyles :: "Size \<Rightarrow> string" where
  "sizeStyles s = (case s of sm \<Rightarrow> ''max-w-sm'' | md \<Rightarrow> ''max-w-md''
                    | lg \<Rightarrow> ''max-w-lg'' | xl \<Rightarrow> ''max-w-xl'')"

text \<open>
  \<^verbatim>\<open>{title && (...)}\<close> renders the header only for a truthy title: neither
  \<^verbatim>\<open>undefined\<close> nor the empty string. \<^verbatim>\<open>{footer && (...)}\<close> likewise for the footer.
\<close>

definition truthy :: "string option \<Rightarrow> bool" where
  "truthy t = (case t of None \<Rightarrow> False | Some s \<Rightarrow> s \<noteq> [])"

definition modalContent :: "ModalProps \<Rightarrow> Elem" where
  "modalContent p =
     Elem Backdrop (Some handleBackdropClick)
       [Elem Dialog (Some handleModalClick)
          ((if truthy (title p) then [Elem Header None [Elem TitleHeading None []]] else [])
           @ [Elem Body None [Elem Children None []]]
           @ (if truthy (footer p) then [Elem Footer None [Elem FooterContent None []]] else [])
           @ [Elem CloseButton (Some onCloseProp)
                [Elem CloseIcon None [Elem CloseIconPath None []]]])]"

text \<open>
  The component's return value: \<^verbatim>\<open>if (!isOpen) return null\<close> (line 56), otherwise the
  portal of \<open>modalContent\<close> into \<^verbatim>\<open>document.body\<close> (lines 135-136).
\<close>

definition Modal :: "ModalProps \<Rightarrow> Elem option" where
  "Modal p = (if \<not> isOpen p then None else Some (modalContent p))"

text \<open>
  What one handler does when it runs: the \<^verbatim>\<open>onClose\<close> calls it makes, and whether it
  calls \<^verbatim>\<open>e.stopPropagation()\<close>.
\<close>

fun runHandler :: "ModalProps \<Rightarrow> ClickHandler \<Rightarrow> Callback list \<times> bool" where
  "runHandler p handleBackdropClick =
     (if arg_closeOnBackdropClick p then [onClose p] else [], False)"
| "runHandler p handleModalClick = ([], True)"
| "runHandler p onCloseProp = ([onClose p], False)"

text \<open>
  A click bubbles from its target through the ancestors to the root; an element's handler
  runs when the event reaches it, and after \<^verbatim>\<open>stopPropagation\<close> no ancestor sees the
  event. \<open>pathTo\<close> finds the chain of elements from the root down to the target.
\<close>

fun pathTo :: "Part \<Rightarrow> Elem \<Rightarrow> Elem list option"
  and pathToIn :: "Part \<Rightarrow> Elem list \<Rightarrow> Elem list option" where
  "pathTo t (Elem q h cs) =
     (if q = t then Some [Elem q h cs]
      else (case pathToIn t cs of None \<Rightarrow> None | Some path \<Rightarrow> Some (Elem q h cs # path)))"
| "pathToIn t [] = None"
| "pathToIn t (c # cs) =
     (case pathTo t c of Some path \<Rightarrow> Some path | None \<Rightarrow> pathToIn t cs)"

text \<open>The handlers that see a click, innermost first, given the target's chain of
  ancestors from the target outwards; then the \<^verbatim>\<open>onClose\<close> calls they make.\<close>

fun reached :: "ModalProps \<Rightarrow> Elem list \<Rightarrow> ClickHandler list" where
  "reached p [] = []"
| "reached p (Elem q None cs # up) = reached p up"
| "reached p (Elem q (Some h) cs # up) =
     (if snd (runHandler p h) then [h] else h # reached p up)"

definition bubble :: "ModalProps \<Rightarrow> Elem list \<Rightarrow> Callback list" where
  "bubble p up = concat (map (\<lambda>h. fst (runHandler p h)) (reached p up))"

definition clickOn :: "ModalProps \<Rightarrow> Elem \<Rightarrow> Part \<Rightarrow> Callback list" where
  "clickOn p root target =
     (case pathTo target root of None \<Rightarrow> [] | Some path \<Rightarrow> bubble p (rev path))"

definition handlersOn :: "ModalProps \<Rightarrow> Elem \<Rightarrow> Part \<Rightarrow> ClickHandler list" where
  "handlersOn p root target =
     (case pathTo target root of None \<Rightarrow> [] | Some path \<Rightarrow> reached p (rev path))"

text \<open>Where a part sits in the output: the parts on the way from the root down to it.\<close>

fun partOf :: "Elem \<Rightarrow> Part" where
  "partOf (Elem q h cs) = q"

definition pathParts :: "Elem \<Rightarrow> Part \<Rightarrow> Part list" where
  "pathParts root target =
     (case pathTo target root of None \<Rightarrow> [] | Some path \<Rightarrow> map partOf path)"

subsection \<open>The host document and the mounted instances\<close>

text \<open>
  The part of the host the component touches: the \<^verbatim>\<open>keydown\<close> listeners of
  \<^verbatim>\<open>document\<close>, \<^verbatim>\<open>document.body.style.overflow\<close>, and the portals under
  \<^verbatim>\<open>document.body\<close>. A listener is the \<^verbatim>\<open>handleEscape\<close> closure of one effect run: it
  belongs to an instance and has captured that run's \<^verbatim>\<open>onClose\<close>.

  Per mounted instance React keeps the props of the last render and, for each of the two
  \<^verbatim>\<open>useEffect\<close> calls, the cleanup function the last run returned: for the first effect the
  removal of its listener (known by the captured \<^verbatim>\<open>onClose\<close>), for the second the reset of
  the overflow style.

  Every write to the host is also appended to a trace, so that the order of the side
  effects inside one transition can be stated.
\<close>

type_synonym Listener = "nat \<times> Callback"

datatype Action =
    PortalMount nat | PortalUnmount nat
  | AddListener Listener | RemoveListener Listener
  | SetOverflow string
  | Invoke nat Callback

record Fiber =
  props :: ModalProps
  escapeCleanup :: "Callback option"
  overflowCleanup :: bool

record World =
  keydownListeners :: "Listener list"
  bodyOverflow :: string
  portals :: "(nat \<times> Elem) list"
  fibers :: "(nat \<times> Fiber) list"
  trace :: "Action list"

definition addEventListener :: "Listener \<Rightarrow> World \<Rightarrow> World" where
  "addEventListener l w =
     w\<lparr>keydownListeners := keydownListeners w @ [l], trace := trace w @ [AddListener l]\<rparr>"

definition removeEventListener :: "Listener \<Rightarrow> World \<Rightarrow> World" where
  "removeEventListener l w =
     w\<lparr>keydownListeners := remove1 l (keydownListeners w),
       trace := trace w @ [RemoveListener l]\<rparr>"

definition setOverflow :: "string \<Rightarrow> World \<Rightarrow> World" where
  "setOverflow v w = w\<lparr>bodyOverflow := v, trace := trace w @ [SetOverflow v]\<rparr>"

definition invoke :: "nat \<Rightarrow> Callback \<Rightarrow> World \<Rightarrow> World" where
  "invoke i cb w = w\<lparr>trace := trace w @ [Invoke i cb]\<rparr>"

text \<open>
  The first effect (lines 31-44), run for instance \<open>i\<close>: the new world and the cleanup it
  returns. Its dependency array is \<^verbatim>\<open>[isOpen, onClose, closeOnEscapeKey]\<close>.
\<close>

definition escapeEffect :: "nat \<Rightarrow> ModalProps \<Rightarrow> World \<Rightarrow> World \<times> Callback option" where
  "escapeEffect i p w =
     (if \<not> isOpen p then (w, None)
      else if arg_closeOnEscapeKey p
        then (addEventListener (i, onClose p) w, Some (onClose p))
        else (w, None))"

definition escapeDeps :: "ModalProps \<Rightarrow> bool \<times> Callback \<times> bool" where
  "escapeDeps p = (isOpen p, onClose p, arg_closeOnEscapeKey p)"

definition runEscapeCleanup :: "nat \<Rightarrow> Callback option \<Rightarrow> World \<Rightarrow> World" where
  "runEscapeCleanup i c w = (case c of None \<Rightarrow> w | Some cb \<Rightarrow> removeEventListener (i, cb) w)"

text \<open>The listener itself (lines 36-40), called with the key of a \<^verbatim>\<open>keydown\<close> event.\<close>

definition handleEscape :: "Listener \<Rightarrow> string \<Rightarrow> World \<Rightarrow> World" where
  "handleEscape l key w = (if key = ''Escape'' then invoke (fst l) (snd l) w else w)"

text \<open>
  The second effect (lines 46-54), with the dependency array \<^verbatim>\<open>[isOpen]\<close>: it writes
  \<^verbatim>\<open>'hidden'\<close>, and its cleanup writes the literal \<^verbatim>\<open>'unset'\<close>.
\<close>

definition overflowEffect :: "ModalProps \<Rightarrow> World \<Rightarrow> World \<times> bool" where
  "overflowEffect p w = (if isOpen p then (setOverflow ''hidden'' w, True) else (w, False))"

definition overflowDeps :: "ModalProps \<Rightarrow> bool" where
  "overflowDeps p = isOpen p"

definition runOverflowCleanup :: "bool \<Rightarrow> World \<Rightarrow> World" where
  "runOverflowCleanup c w = (if c then setOverflow ''unset'' w else w)"

text \<open>
  The portal of one instance after a render: a new portal is appended to the body, an
  existing one is updated in place, and a render that returns \<^verbatim>\<open>null\<close> removes it.
\<close>

definition commitPortal :: "nat \<Rightarrow> Elem option \<Rightarrow> World \<Rightarrow> World" where
  "commitPortal i out w =
     (case out of
        None \<Rightarrow>
          (if map_of (portals w) i = None then w
           else w\<lparr>portals := AList.delete i (portals w), trace := trace w @ [PortalUnmount i]\<rparr>)
      | Some root \<Rightarrow>
          (if map_of (portals w) i = None
           then w\<lparr>portals := portals w @ [(i, root)], trace := trace w @ [PortalMount i]\<rparr>
           else w\<lparr>portals := AList.update i root (portals w)\<rparr>))"

text \<open>
  What React knows of instance \<open>i\<close> before a render: whether each effect must run again
  (on the first render, or when a dependency differs from the last render's), and the
  cleanups still pending from the last run.
\<close>

definition escapeEffectDue :: "World \<Rightarrow> nat \<Rightarrow> ModalProps \<Rightarrow> bool" where
  "escapeEffectDue w i p =
     (case map_of (fibers w) i of None \<Rightarrow> True | Some f \<Rightarrow> escapeDeps (props f) \<noteq> escapeDeps p)"

definition overflowEffectDue :: "World \<Rightarrow> nat \<Rightarrow> ModalProps \<Rightarrow> bool" where
  "overflowEffectDue w i p =
     (case map_of (fibers w) i of None \<Rightarrow> True
      | Some f \<Rightarrow> overflowDeps (props f) \<noteq> overflowDeps p)"

definition pendingEscapeCleanup :: "World \<Rightarrow> nat \<Rightarrow> Callback option" where
  "pendingEscapeCleanup w i = (case map_of (fibers w) i of None \<Rightarrow> None | Some f \<Rightarrow> escapeCleanup f)"

definition pendingOverflowCleanup :: "World \<Rightarrow> nat \<Rightarrow> bool" where
  "pendingOverflowCleanup w i =
     (case map_of (fibers w) i of None \<Rightarrow> False | Some f \<Rightarrow> overflowCleanup f)"

text \<open>
  One render of instance \<open>i\<close> with props \<open>p\<close>, as React commits it: first the output
  reaches the document; then, for each effect that is due, the pending cleanups run in the
  order of the \<^verbatim>\<open>useEffect\<close> calls, and then the effects themselves run in that order.
\<close>

definition commitRender :: "nat \<Rightarrow> ModalProps \<Rightarrow> World \<Rightarrow> World" where
  "commitRender i p w =
     (let run1 = escapeEffectDue w i p;
          run2 = overflowEffectDue w i p;
          c1 = pendingEscapeCleanup w i;
          c2 = pendingOverflowCleanup w i;
          w1 = commitPortal i (Modal p) w;
          w2 = (if run1 then runEscapeCleanup i c1 w1 else w1);
          w3 = (if run2 then runOverflowCleanup c2 w2 else w2);
          e1 = (if run1 then escapeEffect i p w3 else (w3, c1));
          e2 = (if run2 then overflowEffect p (fst e1) else (fst e1, c2))
      in (fst e2)\<lparr>fibers :=
            AList.update i \<lparr>props = p, escapeCleanup = snd e1, overflowCleanup = snd e2\<rparr>
              (fibers (fst e2))\<rparr>)"

text \<open>The caller stops rendering instance \<open>i\<close>: its output goes and its cleanups run.\<close>

definition commitUnmount :: "nat \<Rightarrow> World \<Rightarrow> World" where
  "commitUnmount i w =
     (case map_of (fibers w) i of
        None \<Rightarrow> w
      | Some f \<Rightarrow>
          (let w1 = commitPortal i None w;
               w2 = runEscapeCleanup i (escapeCleanup f) w1;
               w3 = runOverflowCleanup (overflowCleanup f) w2
           in w3\<lparr>fibers := AList.delete i (fibers w3)\<rparr>))"

text \<open>A \<^verbatim>\<open>keydown\<close> event on the document calls every registered listener in turn.\<close>

definition dispatchKeydown :: "string \<Rightarrow> World \<Rightarrow> World" where
  "dispatchKeydown key w = fold (\<lambda>l. handleEscape l key) (keydownListeners w) w"

text \<open>
  A click on a part of the portal of instance \<open>i\<close>; the handlers are those of the
  instance's last render.
\<close>

definition dispatchClick :: "nat \<Rightarrow> Part \<Rightarrow> World \<Rightarrow> World" where
  "dispatchClick i target w =
     (case (map_of (portals w) i, map_of (fibers w) i) of
        (Some root, Some f) \<Rightarrow> fold (invoke i) (clickOn (props f) root target) w
      | _ \<Rightarrow> w)"

text \<open>
  What can happen to the page: the caller renders instance \<open>i\<close> with some props (the first
  render mounts it), the caller stops rendering it, a key goes down, or a part of an
  instance's portal is clicked. Each event runs to completion before the next.
\<close>

datatype Event =
    Render nat ModalProps
  | Unmount nat
  | KeyDown string
  | Click nat Part

fun step :: "World \<Rightarrow> Event \<Rightarrow> World" where
  "step w (Render i p) = commitRender i p w"
| "step w (Unmount i) = commitUnmount i w"
| "step w (KeyDown key) = dispatchKeydown key w"
| "step w (Click i target) = dispatchClick i target w"

definition run :: "World \<Rightarrow> Event list \<Rightarrow> World" where
  "run w evs = foldl step w evs"

text \<open>The page before any instance is rendered, with the overflow style it happens to have.\<close>

definition initial :: "string \<Rightarrow> World" where
  "initial v = \<lparr>keydownListeners = [], bodyOverflow = v, portals = [], fibers = [], trace = []\<rparr>"

subsection \<open>Observations\<close>

definition instance_open :: "World \<Rightarrow> nat \<Rightarrow> bool" where
  "instance_open w i = (case map_of (fibers w) i of None \<Rightarrow> False | Some f \<Rightarrow> isOpen (props f))"

definition escape_enabled :: "World \<Rightarrow> nat \<Rightarrow> bool" where
  "escape_enabled w i =
     (case map_of (fibers w) i of None \<Rightarrow> False | Some f \<Rightarrow> arg_closeOnEscapeKey (props f))"

definition has_listener :: "World \<Rightarrow> nat \<Rightarrow> bool" where
  "has_listener w i = (i \<in> fst ` set (keydownListeners w))"

text \<open>
  The code keeps no counter of its own; these count the mounted instances whose second
  effect has a cleanup pending (the holders of the scroll lock), those that are open, and
  those that are open with \<^verbatim>\<open>closeOnEscapeKey\<close>.
\<close>

definition lockCount :: "World \<Rightarrow> nat" where
  "lockCount w = length (filter (\<lambda>(i, f). overflowCleanup f) (fibers w))"

definition numOpen :: "World \<Rightarrow> nat" where
  "numOpen w = length (filter (\<lambda>(i, f). isOpen (props f)) (fibers w))"

definition numOpenEscape :: "World \<Rightarrow> nat" where
  "numOpenEscape w =
     length (filter (\<lambda>(i, f). isOpen (props f) \<and> arg_closeOnEscapeKey (props f)) (fibers w))"

text \<open>What an event added to the trace, and the \<^verbatim>\<open>onClose\<close> calls of one instance in it.\<close>

definition emitted :: "World \<Rightarrow> Event \<Rightarrow> Action list" where
  "emitted w e = drop (length (trace w)) (trace (step w e))"

fun callsOf :: "nat \<Rightarrow> Action list \<Rightarrow> Callback list" where
  "callsOf i [] = []"
| "callsOf i (Invoke j cb # as) = (if j = i then cb # callsOf i as else callsOf i as)"
| "callsOf i (a # as) = callsOf i as"

subsection \<open>Consistency of a world\<close>

text \<open>
  What holds of every world that a sequence of events reaches from \<open>initial\<close>. A fiber is
  in order when its pending cleanups are those its last props call for.
\<close>

definition fiber_ok :: "Fiber \<Rightarrow> bool" where
  "fiber_ok f \<longleftrightarrow>
     escapeCleanup f = (if isOpen (props f) \<and> arg_closeOnEscapeKey (props f)
                        then Some (onClose (props f)) else None)
     \<and> overflowCleanup f = isOpen (props f)"

definition fibers_ok :: "World \<Rightarrow> bool" where
  "fibers_ok w \<longleftrightarrow> (\<forall>i f. map_of (fibers w) i = Some f \<longrightarrow> fiber_ok f)"

text \<open>The cleanups that a render leaves pending.\<close>

definition newEscapeCleanup :: "World \<Rightarrow> nat \<Rightarrow> ModalProps \<Rightarrow> Callback option" where
  "newEscapeCleanup w i p =
     (if escapeEffectDue w i p
      then (if isOpen p \<and> arg_closeOnEscapeKey p then Some (onClose p) else None)
      else pendingEscapeCleanup w i)"

definition newOverflowCleanup :: "World \<Rightarrow> nat \<Rightarrow> ModalProps \<Rightarrow> bool" where
  "newOverflowCleanup w i p =
     (if overflowEffectDue w i p then isOpen p else pendingOverflowCleanup w i)"

text \<open>
  The listeners that the fibers account for: one per pending cleanup of the first effect.
\<close>

definition own :: "nat \<Rightarrow> Fiber \<Rightarrow> Listener list" where
  "own i f = (case escapeCleanup f of None \<Rightarrow> [] | Some cb \<Rightarrow> [(i, cb)])"

definition expected :: "(nat \<times> Fiber) list \<Rightarrow> Listener list" where
  "expected fs = concat (map (\<lambda>(i, f). own i f) fs)"

definition old_own :: "(nat \<times> Fiber) list \<Rightarrow> nat \<Rightarrow> Listener list" where
  "old_own fs i = (case map_of fs i of None \<Rightarrow> [] | Some f \<Rightarrow> own i f)"

definition listeners_ok :: "World \<Rightarrow> bool" where
  "listeners_ok w \<longleftrightarrow> mset (keydownListeners w) = mset (expected (fibers w))"

text \<open>The portal of each instance is the output of its last render.\<close>

definition portals_ok :: "World \<Rightarrow> bool" where
  "portals_ok w \<longleftrightarrow>
     (\<forall>i. map_of (portals w) i =
        (case map_of (fibers w) i of None \<Rightarrow> None | Some f \<Rightarrow> Modal (props f)))"

text \<open>
  The overflow style: untouched until the first lock; afterwards \<^verbatim>\<open>'hidden'\<close> only while
  some instance still holds the lock, and the literal \<^verbatim>\<open>'unset'\<close> otherwise.
\<close>

definition locked_once :: "World \<Rightarrow> bool" where
  "locked_once w = (SetOverflow ''hidden'' \<in> set (trace w))"

definition overflow_ok :: "string \<Rightarrow> World \<Rightarrow> bool" where
  "overflow_ok v w \<longleftrightarrow>
     (locked_once w \<longrightarrow>
        bodyOverflow w = ''unset''
        \<or> (bodyOverflow w = ''hidden'' \<and> (\<exists>i. pendingOverflowCleanup w i)))
     \<and> (\<not> locked_once w \<longrightarrow> bodyOverflow w = v \<and> (\<forall>i. \<not> pendingOverflowCleanup w i))"

definition consistent :: "string \<Rightarrow> World \<Rightarrow> bool" where
  "consistent v w \<longleftrightarrow>
     distinct (map fst (fibers w)) \<and> fibers_ok w \<and> listeners_ok w \<and> portals_ok w
     \<and> overflow_ok v w"

text \<open>A dismissal request as it appears in the trace of a world: a call of the
  \<^verbatim>\<open>onClose\<close> that the caller passed to a mounted instance.\<close>

definition closeRequest :: "World \<Rightarrow> Action \<Rightarrow> bool" where
  "closeRequest w a =
     (case a of
        Invoke j cb \<Rightarrow>
          (case map_of (fibers w) j of None \<Rightarrow> False | Some f \<Rightarrow> cb = onClose (props f))
      | _ \<Rightarrow> False)"

subsection \<open>Example props\<close>

text \<open>
  The usage of the component's documentation,
  \<^verbatim>\<open><Modal isOpen={open} onClose={...} title="Confirm">\<close>, with every optional flag
  omitted; the same with both dismissal flags switched off; and each of them closed.
\<close>

definition confirmModal :: "Callback \<Rightarrow> ModalProps" where
  "confirmModal cb =
     \<lparr>isOpen = True, onClose = cb, title = Some ''Confirm'', children = ''Are you sure?'',
      footer = None, size' = None, closeOnBackdropClick = None, closeOnEscapeKey = None\<rparr>"

definition stickyModal :: "Callback \<Rightarrow> ModalProps" where
  "stickyModal cb =
     (confirmModal cb)\<lparr>closeOnBackdropClick := Some False, closeOnEscapeKey := Some False\<rparr>"

definition closed :: "ModalProps \<Rightarrow> ModalProps" where
  "closed p = p\<lparr>isOpen := False\<rparr>"

lemmas host_defs = addEventListener_def removeEventListener_def setOverflow_def invoke_def
  escapeEffect_def runEscapeCleanup_def overflowEffect_def runOverflowCleanup_def
  commitPortal_def

section \<open>Properties\<close>

subsection \<open>What one transition writes\<close>

lemma fibers_commitRender:
  "fibers (commitRender i p w) =
     AList.update i
       \<lparr>props = p, escapeCleanup = newEscapeCleanup w i p,
        overflowCleanup = newOverflowCleanup w i p\<rparr>
       (fibers w)"
  by (auto simp add: commitRender_def Let_def host_defs newEscapeCleanup_def
        newOverflowCleanup_def split: option.splits)

lemma fibers_commitUnmount:
  "fibers (commitUnmount i w) = AList.delete i (fibers w)"
  by (simp add: commitUnmount_def Let_def host_defs split: option.splits)
     (metis delete_id map_of_eq_None_iff)

lemma fold_invoke:
  "fold (invoke i) cbs w = w\<lparr>trace := trace w @ map (Invoke i) cbs\<rparr>"
  by (induction cbs arbitrary: w) (simp_all add: invoke_def)

lemma fold_handleEscape:
  "fold (\<lambda>l. handleEscape l key) ls w =
     w\<lparr>trace := trace w @ (if key = ''Escape'' then map (\<lambda>l. Invoke (fst l) (snd l)) ls else [])\<rparr>"
  by (induction ls arbitrary: w) (simp_all add: handleEscape_def invoke_def)

lemma dispatchKeydown_eq:
  "dispatchKeydown key w =
     w\<lparr>trace := trace w @ (if key = ''Escape''
        then map (\<lambda>l. Invoke (fst l) (snd l)) (keydownListeners w) else [])\<rparr>"
  unfolding dispatchKeydown_def fold_handleEscape ..

lemma dispatchClick_eq:
  "dispatchClick i target w =
     w\<lparr>trace := trace w @ (case (map_of (portals w) i, map_of (fibers w) i) of
         (Some root, Some f) \<Rightarrow> map (Invoke i) (clickOn (props f) root target)
       | _ \<Rightarrow> [])\<rparr>"
  by (simp add: dispatchClick_def fold_invoke split: option.splits)

subsection \<open>Every reachable world is consistent\<close>

lemma distinct_fibers_step:
  "distinct (map fst (fibers w)) \<Longrightarrow> distinct (map fst (fibers (step w e)))"
  by (cases e)
     (simp_all add: fibers_commitRender fibers_commitUnmount distinct_update distinct_delete
        dispatchKeydown_eq dispatchClick_eq)

lemma fibers_ok_step: "fibers_ok w \<Longrightarrow> fibers_ok (step w e)"
proof (cases e)
  case (Render i p)
  assume ok: "fibers_ok w"
  show ?thesis
    unfolding Render step.simps fibers_ok_def fibers_commitRender update_conv'
    using ok
    by (auto simp: fibers_ok_def fiber_ok_def escapeDeps_def overflowDeps_def
          newEscapeCleanup_def newOverflowCleanup_def escapeEffectDue_def overflowEffectDue_def
          pendingEscapeCleanup_def pendingOverflowCleanup_def
             split: option.splits if_splits)
next
  case (Unmount i)
  assume ok: "fibers_ok w"
  then show ?thesis
    unfolding Unmount step.simps fibers_ok_def fibers_commitUnmount delete_conv'
    by (auto split: if_splits)
qed (simp_all add: fibers_ok_def dispatchKeydown_eq dispatchClick_eq)

lemma expected_simps [simp]:
  "expected [] = []" "expected ((i, f) # fs) = own i f @ expected fs"
  by (simp_all add: expected_def)

lemma old_own_simps [simp]:
  "old_own [] i = []"
  "old_own ((j, f) # fs) i = (if i = j then own j f else old_own fs i)"
  by (simp_all add: old_own_def)

lemma expected_update_add:
  "mset (expected (AList.update i f' fs)) + mset (old_own fs i)
     = mset (expected fs) + mset (own i f')"
  by (induction fs) auto

lemma old_own_notin: "i \<notin> fst ` set fs \<Longrightarrow> old_own fs i = []"
  by (induction fs) auto

lemma expected_delete_add:
  "distinct (map fst fs) \<Longrightarrow>
     mset (expected (AList.delete i fs)) + mset (old_own fs i) = mset (expected fs)"
  by (induction fs) (auto simp: old_own_notin)

lemma old_own_subset: "mset (old_own fs i) \<subseteq># mset (expected fs)"
  by (induction fs) (auto simp: subset_mset.add_increasing)

lemma own_in_expected:
  "map_of fs i = Some f \<Longrightarrow> escapeCleanup f = Some cb \<Longrightarrow> (i, cb) \<in># mset (expected fs)"
  using old_own_subset [of fs i] by (auto simp: old_own_def own_def)

lemma expected_update:
  "mset (expected (AList.update i f' fs))
     = mset (expected fs) - mset (old_own fs i) + mset (own i f')"
  using expected_update_add [of i f' fs] old_own_subset [of fs i]
  by (metis add_diff_cancel_right' subset_mset.add_diff_assoc2)

lemma expected_delete:
  "distinct (map fst fs) \<Longrightarrow>
     mset (expected (AList.delete i fs)) = mset (expected fs) - mset (old_own fs i)"
  using expected_delete_add [of fs i] by (metis add_diff_cancel_right')

lemma listeners_commitRender:
  "keydownListeners (commitRender i p w) =
     (if escapeEffectDue w i p
      then (case pendingEscapeCleanup w i of None \<Rightarrow> keydownListeners w
            | Some cb \<Rightarrow> remove1 (i, cb) (keydownListeners w))
           @ (if isOpen p \<and> arg_closeOnEscapeKey p then [(i, onClose p)] else [])
      else keydownListeners w)"
  by (auto simp add: commitRender_def Let_def host_defs split: option.splits)

lemma listeners_commitUnmount:
  "keydownListeners (commitUnmount i w) =
     (case map_of (fibers w) i of
        None \<Rightarrow> keydownListeners w
      | Some f \<Rightarrow> (case escapeCleanup f of None \<Rightarrow> keydownListeners w
                                | Some cb \<Rightarrow> remove1 (i, cb) (keydownListeners w)))"
  by (auto simp add: commitUnmount_def Let_def host_defs split: option.splits)

lemma listeners_ok_step:
  assumes "distinct (map fst (fibers w))" "listeners_ok w"
  shows "listeners_ok (step w e)"
proof (cases e)
  case (Render i p)
  show ?thesis
    using assms(2)
    unfolding Render step.simps listeners_ok_def fibers_commitRender listeners_commitRender
      expected_update
    by (auto simp: old_own_def own_def newEscapeCleanup_def pendingEscapeCleanup_def
          dest: own_in_expected split: option.splits)
next
  case (Unmount i)
  show ?thesis
    using assms
    unfolding Unmount step.simps listeners_ok_def fibers_commitUnmount listeners_commitUnmount
    by (auto simp: expected_delete old_own_def own_def split: option.splits)
qed (use assms in \<open>simp_all add: listeners_ok_def dispatchKeydown_eq dispatchClick_eq\<close>)

lemma map_of_commitPortal:
  "map_of (portals (commitPortal i out w)) = (map_of (portals w))(i := out)"
  by (auto simp: commitPortal_def update_conv' delete_conv' map_add_def fun_eq_iff
        split: option.splits)

lemma portals_commitRender:
  "portals (commitRender i p w) = portals (commitPortal i (Modal p) w)"
  by (auto simp add: commitRender_def Let_def host_defs split: option.splits)

lemma portals_commitUnmount:
  "map_of (portals (commitUnmount i w)) =
     (case map_of (fibers w) i of None \<Rightarrow> map_of (portals w)
      | Some f \<Rightarrow> (map_of (portals w))(i := None))"
  by (auto simp add: commitUnmount_def Let_def host_defs delete_conv' fun_eq_iff
        split: option.splits)

lemma portals_ok_step: "portals_ok w \<Longrightarrow> portals_ok (step w e)"
proof (cases e)
  case (Render i p)
  assume "portals_ok w"
  then show ?thesis
    unfolding Render step.simps portals_ok_def portals_commitRender map_of_commitPortal
      fibers_commitRender update_conv'
    by simp
next
  case (Unmount i)
  assume "portals_ok w"
  then show ?thesis
    unfolding Unmount step.simps portals_ok_def portals_commitUnmount
      fibers_commitUnmount delete_conv'
    by (auto split: option.splits)
qed (simp_all add: portals_ok_def dispatchKeydown_eq dispatchClick_eq)

lemma trace_commitRender:
  "trace (commitRender i p w) =
     trace w
     @ (case Modal p of
          None \<Rightarrow> (if map_of (portals w) i = None then [] else [PortalUnmount i])
        | Some root \<Rightarrow> (if map_of (portals w) i = None then [PortalMount i] else []))
     @ (if escapeEffectDue w i p
        then (case pendingEscapeCleanup w i of None \<Rightarrow> [] | Some cb \<Rightarrow> [RemoveListener (i, cb)])
        else [])
     @ (if overflowEffectDue w i p \<and> pendingOverflowCleanup w i then [SetOverflow ''unset'']
        else [])
     @ (if escapeEffectDue w i p \<and> isOpen p \<and> arg_closeOnEscapeKey p
        then [AddListener (i, onClose p)] else [])
     @ (if overflowEffectDue w i p \<and> isOpen p then [SetOverflow ''hidden''] else [])"
  by (auto simp add: commitRender_def Let_def host_defs split: option.splits)

lemma trace_commitUnmount:
  "trace (commitUnmount i w) =
     trace w
     @ (case map_of (fibers w) i of None \<Rightarrow> []
        | Some f \<Rightarrow>
            (if map_of (portals w) i = None then [] else [PortalUnmount i])
            @ (case escapeCleanup f of None \<Rightarrow> [] | Some cb \<Rightarrow> [RemoveListener (i, cb)])
            @ (if overflowCleanup f then [SetOverflow ''unset''] else []))"
  by (auto simp add: commitUnmount_def Let_def host_defs split: option.splits)

lemma overflow_commitRender:
  "bodyOverflow (commitRender i p w) =
     (if overflowEffectDue w i p \<and> isOpen p then ''hidden''
      else if overflowEffectDue w i p \<and> pendingOverflowCleanup w i then ''unset''
      else bodyOverflow w)"
  by (auto simp add: commitRender_def Let_def host_defs split: option.splits)

lemma overflow_commitUnmount:
  "bodyOverflow (commitUnmount i w) =
     (if pendingOverflowCleanup w i then ''unset'' else bodyOverflow w)"
  by (auto simp add: commitUnmount_def Let_def host_defs pendingOverflowCleanup_def
        split: option.splits)

lemma pending_commitRender:
  "pendingOverflowCleanup (commitRender i p w) j =
     (if j = i then newOverflowCleanup w i p else pendingOverflowCleanup w j)"
  by (simp add: pendingOverflowCleanup_def fibers_commitRender update_conv')

lemma pending_commitUnmount:
  "pendingOverflowCleanup (commitUnmount i w) j =
     (if j = i then False else pendingOverflowCleanup w j)"
  by (simp add: pendingOverflowCleanup_def fibers_commitUnmount delete_conv')

lemma locked_once_commitRender:
  "locked_once (commitRender i p w) \<longleftrightarrow>
     locked_once w \<or> (overflowEffectDue w i p \<and> isOpen p)"
  unfolding locked_once_def trace_commitRender
  by (cases "Modal p"; cases "pendingEscapeCleanup w i") (simp_all only: option.case, simp_all)

lemma locked_once_commitUnmount:
  "locked_once (commitUnmount i w) \<longleftrightarrow> locked_once w"
  unfolding locked_once_def trace_commitUnmount
  by (cases "map_of (fibers w) i") (auto split: option.splits)

lemma overflow_ok_step: "overflow_ok v w \<Longrightarrow> overflow_ok v (step w e)"
proof (cases e)
  case (Render i p)
  assume "overflow_ok v w"
  then show ?thesis
    unfolding Render step.simps overflow_ok_def pending_commitRender locked_once_commitRender
      overflow_commitRender newOverflowCleanup_def
    apply (cases "overflowEffectDue w i p"; cases "isOpen p"; cases "pendingOverflowCleanup w i")
    apply auto
    done
next
  case (Unmount i)
  assume "overflow_ok v w"
  then show ?thesis
    unfolding Unmount step.simps overflow_ok_def pending_commitUnmount locked_once_commitUnmount
      overflow_commitUnmount
    apply (cases "pendingOverflowCleanup w i") apply auto done
next
  case (KeyDown k)
  assume "overflow_ok v w"
  then show ?thesis
    by (simp add: KeyDown overflow_ok_def dispatchKeydown_eq locked_once_def
          pendingOverflowCleanup_def image_iff)
next
  case (Click i t)
  assume "overflow_ok v w"
  then show ?thesis
    by (auto simp add: Click overflow_ok_def dispatchClick_eq locked_once_def
          pendingOverflowCleanup_def image_iff split: option.splits)
qed

lemma consistent_initial: "consistent v (initial v)"
  by (simp add: consistent_def initial_def fibers_ok_def listeners_ok_def portals_ok_def
        overflow_ok_def locked_once_def pendingOverflowCleanup_def)

lemma consistent_step: "consistent v w \<Longrightarrow> consistent v (step w e)"
  unfolding consistent_def
  by (intro conjI distinct_fibers_step fibers_ok_step listeners_ok_step portals_ok_step
        overflow_ok_step) simp_all

lemma run_snoc: "run w (evs @ [e]) = step (run w evs) e"
  by (simp add: run_def)

lemma consistent_run: "consistent v (run (initial v) evs)"
  by (induction evs rule: rev_induct) (simp_all add: run_def consistent_initial consistent_step)

subsection \<open>Consequences of consistency\<close>

lemma fiber_ok_member:
  assumes "consistent v w" "(i, f) \<in> set (fibers w)"
  shows "fiber_ok f"
proof -
  from assms have "map_of (fibers w) i = Some f"
    by (simp add: consistent_def)
  with assms(1) show ?thesis
    unfolding consistent_def fibers_ok_def by blast
qed

lemma lockCount_numOpen:
  assumes "consistent v w"
  shows "lockCount w = numOpen w"
proof -
  have "\<forall>x \<in> set (fibers w). (case x of (i, f) \<Rightarrow> overflowCleanup f)
          = (case x of (i, f) \<Rightarrow> isOpen (props f))"
    by (auto simp: fiber_ok_def dest!: fiber_ok_member [OF assms])
  then show ?thesis
    unfolding lockCount_def numOpen_def by (metis (mono_tags, lifting) filter_cong)
qed

lemma length_expected:
  "length (expected fs) = length (filter (\<lambda>(i, f). escapeCleanup f \<noteq> None) fs)"
  by (induction fs) (auto simp: own_def split: option.splits)

lemma listener_count:
  assumes "consistent v w"
  shows "length (keydownListeners w) = numOpenEscape w"
proof -
  have "length (keydownListeners w) = length (expected (fibers w))"
    using assms by (metis consistent_def listeners_ok_def size_mset)
  moreover have "\<forall>x \<in> set (fibers w). (case x of (i, f) \<Rightarrow> escapeCleanup f \<noteq> None)
          = (case x of (i, f) \<Rightarrow> isOpen (props f) \<and> arg_closeOnEscapeKey (props f))"
    by (auto simp: fiber_ok_def dest!: fiber_ok_member [OF assms] split: if_splits)
  then have "length (filter (\<lambda>(i, f). escapeCleanup f \<noteq> None) (fibers w)) = numOpenEscape w"
    unfolding numOpenEscape_def by (metis (mono_tags, lifting) filter_cong)
  ultimately show ?thesis by (simp add: length_expected)
qed

lemma filter_expected:
  "distinct (map fst fs) \<Longrightarrow> filter (\<lambda>l. fst l = i) (expected fs) = old_own fs i"
proof (induction fs)
  case Nil
  then show ?case by simp
next
  case (Cons x fs)
  obtain j f where x: "x = (j, f)" by (cases x)
  have "i \<notin> fst ` set fs \<Longrightarrow> filter (\<lambda>l. fst l = i) (expected fs) = []"
    using Cons by (simp add: old_own_notin)
  with Cons show ?case
    by (auto simp: x own_def split: option.splits)
qed

lemma listeners_of_instance:
  assumes "consistent v w"
  shows "filter (\<lambda>l. fst l = i) (keydownListeners w) = old_own (fibers w) i"
proof -
  from assms have d: "distinct (map fst (fibers w))"
    by (simp add: consistent_def)
  have "mset (filter (\<lambda>l. fst l = i) (keydownListeners w))
          = mset (filter (\<lambda>l. fst l = i) (expected (fibers w)))"
    using assms by (simp add: consistent_def listeners_ok_def)
  also have "filter (\<lambda>l. fst l = i) (expected (fibers w)) = old_own (fibers w) i"
    by (rule filter_expected [OF d])
  finally have m:
    "mset (filter (\<lambda>l. fst l = i) (keydownListeners w)) = mset (old_own (fibers w) i)" .
  show ?thesis
  proof (cases "old_own (fibers w) i")
    case Nil
    with m show ?thesis by (auto simp: filter_empty_conv)
  next
    case (Cons l ls)
    then have "ls = []" by (auto simp: old_own_def own_def split: option.splits)
    with m Cons show ?thesis by (simp del: mset_filter)
  qed
qed

lemma old_own_consistent:
  "consistent v w \<Longrightarrow>
     old_own (fibers w) i =
       (case map_of (fibers w) i of None \<Rightarrow> []
        | Some f \<Rightarrow> (if isOpen (props f) \<and> arg_closeOnEscapeKey (props f)
                     then [(i, onClose (props f))] else []))"
  by (auto simp: consistent_def fibers_ok_def fiber_ok_def old_own_def own_def
        split: option.splits)

lemma has_listener_iff:
  assumes "consistent v w"
  shows "has_listener w i \<longleftrightarrow> instance_open w i \<and> escape_enabled w i"
proof -
  have "has_listener w i \<longleftrightarrow> filter (\<lambda>l. fst l = i) (keydownListeners w) \<noteq> []"
    by (auto simp: has_listener_def filter_empty_conv)
  then show ?thesis
    unfolding listeners_of_instance [OF assms] old_own_consistent [OF assms]
    by (auto simp: instance_open_def escape_enabled_def split: option.splits)
qed

lemma callsOf_map_Invoke:
  "callsOf i (map (\<lambda>l. Invoke (fst l) (snd l)) ls) = map snd (filter (\<lambda>l. fst l = i) ls)"
  by (induction ls) auto

lemma emitted_KeyDown:
  "emitted w (KeyDown key) =
     (if key = ''Escape'' then map (\<lambda>l. Invoke (fst l) (snd l)) (keydownListeners w) else [])"
  by (simp add: emitted_def dispatchKeydown_eq)

lemma escape_calls:
  assumes "consistent v w"
  shows "callsOf i (emitted w (KeyDown ''Escape'')) =
           (case map_of (fibers w) i of None \<Rightarrow> []
            | Some f \<Rightarrow> (if isOpen (props f) \<and> arg_closeOnEscapeKey (props f)
                         then [onClose (props f)] else []))"
  unfolding emitted_KeyDown
  by (simp add: callsOf_map_Invoke listeners_of_instance [OF assms] old_own_consistent [OF assms]
        split: option.splits)

lemma closed_portal:
  assumes "consistent v w" "\<not> instance_open w i"
  shows "map_of (portals w) i = None"
proof -
  from assms(1) have "portals_ok w" by (simp add: consistent_def)
  with assms(2) show ?thesis
    by (auto simp: portals_ok_def instance_open_def Modal_def split: option.splits)
qed

subsection \<open>Clicks on the rendered output\<close>

lemma clicks_modalContent:
  "clickOn p (modalContent p) t =
     (if t = Backdrop then (if arg_closeOnBackdropClick p then [onClose p] else [])
      else if t \<in> {CloseButton, CloseIcon, CloseIconPath} then [onClose p]
      else [])"
  by (cases t) (simp_all add: clickOn_def bubble_def modalContent_def)

lemma handlers_modalContent:
  "handlersOn p (modalContent p) t =
     (if t = Backdrop then [handleBackdropClick]
      else if t \<in> {CloseButton, CloseIcon, CloseIconPath} then [onCloseProp, handleModalClick]
      else if t = Dialog \<or> t = Body \<or> t = Children
              \<or> (truthy (title p) \<and> (t = Header \<or> t = TitleHeading))
              \<or> (truthy (footer p) \<and> (t = Footer \<or> t = FooterContent))
           then [handleModalClick]
      else [])"
  by (cases t) (simp_all add: handlersOn_def modalContent_def)

lemma emitted_Click:
  assumes "consistent v w" "map_of (fibers w) i = Some f"
  shows "emitted w (Click i t) =
           (if isOpen (props f) then map (Invoke i) (clickOn (props f) (modalContent (props f)) t)
            else [])"
proof -
  from assms(1) have "portals_ok w" by (simp add: consistent_def)
  with assms(2) have "map_of (portals w) i = Modal (props f)"
    by (simp add: portals_ok_def)
  with assms(2) show ?thesis
    by (simp add: emitted_def dispatchClick_eq Modal_def)
qed

section \<open>The claims\<close>

subsection \<open>C9: the dismissal flags default to true\<close>

text \<open>
  C9. When the caller omits \<^verbatim>\<open>closeOnBackdropClick\<close>, the component dismisses on a backdrop
  click, and when the caller omits \<^verbatim>\<open>closeOnEscapeKey\<close>, it dismisses on Escape: both
  flags default to true.
\<close>

theorem C9_dismiss_defaults:
  "(closeOnBackdropClick p = None \<longrightarrow> arg_closeOnBackdropClick p)
   \<and> (closeOnEscapeKey p = None \<longrightarrow> arg_closeOnEscapeKey p)"
  by (simp add: arg_closeOnBackdropClick_def arg_closeOnEscapeKey_def)

theorem C9_dismiss_defaults_witness:
  "closeOnBackdropClick (confirmModal 7) = None \<and> arg_closeOnBackdropClick (confirmModal 7)
   \<and> closeOnEscapeKey (confirmModal 7) = None \<and> arg_closeOnEscapeKey (confirmModal 7)"
  using C9_dismiss_defaults [of "confirmModal 7"] by (simp add: confirmModal_def)

subsection \<open>C7: a closed instance has no output\<close>

text \<open>
  C7. With \<^verbatim>\<open>isOpen\<close> false the component returns \<^verbatim>\<open>null\<close>, and in every world reached
  from the initial page an instance that is not open has no portal under the body.
\<close>

theorem C7_closed_renders_nothing:
  "(\<not> isOpen p \<longrightarrow> Modal p = None)
   \<and> (\<not> instance_open (run (initial v) evs) i \<longrightarrow> map_of (portals (run (initial v) evs)) i = None)"
  using closed_portal [OF consistent_run, of v evs i] by (simp add: Modal_def)

theorem C7_closed_renders_nothing_witness:
  "\<not> isOpen (closed (confirmModal 7)) \<and> Modal (closed (confirmModal 7)) = None
   \<and> \<not> instance_open (run (initial ''auto'')
            [Render 0 (confirmModal 7), Render 0 (closed (confirmModal 7))]) 0
   \<and> map_of (portals (run (initial ''auto'')
            [Render 0 (confirmModal 7), Render 0 (closed (confirmModal 7))])) 0 = None"
proof -
  have a: "\<not> isOpen (closed (confirmModal 7))"
    by (simp add: closed_def)
  have b: "\<not> instance_open (run (initial ''auto'')
            [Render 0 (confirmModal 7), Render 0 (closed (confirmModal 7))]) 0"
    by code_simp
  from a b C7_closed_renders_nothing
         [of "closed (confirmModal 7)" "''auto''"
             "[Render 0 (confirmModal 7), Render 0 (closed (confirmModal 7))]" 0]
  show ?thesis by blast
qed

subsection \<open>C10: the close button\<close>

text \<open>
  C10. An open instance renders the close button, and a click on it calls \<^verbatim>\<open>onClose\<close>
  once, whatever the two dismissal flags are: the button's handler is the \<^verbatim>\<open>onClose\<close> prop
  itself, and the dialog's own handler only stops the event from reaching the backdrop.
\<close>

theorem C10_close_button_unconditional:
  "(isOpen p \<longrightarrow>
      Modal p = Some (modalContent p)
      \<and> pathTo CloseButton (modalContent p) \<noteq> None
      \<and> clickOn p (modalContent p) CloseButton = [onClose p])
   \<and> (map_of (fibers (run (initial v) evs)) i = Some f \<and> isOpen (props f) \<longrightarrow>
        emitted (run (initial v) evs) (Click i CloseButton) = [Invoke i (onClose (props f))])"
proof -
  have "pathTo CloseButton (modalContent p) \<noteq> None"
    by (simp add: modalContent_def)
  then show ?thesis
    by (simp add: Modal_def clicks_modalContent emitted_Click [OF consistent_run])
qed

theorem C10_close_button_unconditional_witness:
  "isOpen (stickyModal 7)
   \<and> arg_closeOnBackdropClick (stickyModal 7) = False
   \<and> arg_closeOnEscapeKey (stickyModal 7) = False
   \<and> Modal (stickyModal 7) = Some (modalContent (stickyModal 7))
   \<and> pathTo CloseButton (modalContent (stickyModal 7)) \<noteq> None
   \<and> clickOn (stickyModal 7) (modalContent (stickyModal 7)) CloseButton = [7]
   \<and> map_of (fibers (run (initial ''auto'') [Render 0 (stickyModal 7)])) 0
        = Some \<lparr>props = stickyModal 7, escapeCleanup = None, overflowCleanup = True\<rparr>
   \<and> emitted (run (initial ''auto'') [Render 0 (stickyModal 7)]) (Click 0 CloseButton)
        = [Invoke 0 7]"
proof -
  have a: "isOpen (stickyModal 7)" "onClose (stickyModal 7) = 7"
    "arg_closeOnBackdropClick (stickyModal 7) = False"
    "arg_closeOnEscapeKey (stickyModal 7) = False"
    by (simp_all add: stickyModal_def confirmModal_def arg_closeOnBackdropClick_def
          arg_closeOnEscapeKey_def)
  have b: "map_of (fibers (run (initial ''auto'') [Render 0 (stickyModal 7)])) 0
        = Some \<lparr>props = stickyModal 7, escapeCleanup = None, overflowCleanup = True\<rparr>"
    by code_simp
  from a b C10_close_button_unconditional
       [of "stickyModal 7" "''auto''" "[Render 0 (stickyModal 7)]" 0
           "\<lparr>props = stickyModal 7, escapeCleanup = None, overflowCleanup = True\<rparr>"]
  show ?thesis by simp
qed

subsection \<open>C5: interior clicks and backdrop clicks\<close>

text \<open>
  C5, as the code has it. For an open instance and a click on any part inside the
  backdrop: the click never reaches \<^verbatim>\<open>handleBackdropClick\<close>, whatever
  \<^verbatim>\<open>closeOnBackdropClick\<close> is, because \<^verbatim>\<open>handleModalClick\<close> stops the propagation; it calls
  \<^verbatim>\<open>onClose\<close> exactly once when its target is the built-in close button or its icon, and
  not at all on every other part (the panel, the header and title, the body and children,
  the footer). A click on the backdrop itself calls \<^verbatim>\<open>onClose\<close> once when
  \<^verbatim>\<open>closeOnBackdropClick\<close> holds, and not otherwise.
\<close>

theorem C5_interior_click_dismisses_only_by_button:
  "map_of (fibers (run (initial v) evs)) i = Some f \<and> isOpen (props f) \<longrightarrow>
     (t \<noteq> Backdrop \<longrightarrow>
        emitted (run (initial v) evs) (Click i t)
          = (if t \<in> {CloseButton, CloseIcon, CloseIconPath}
             then [Invoke i (onClose (props f))] else [])
        \<and> handleBackdropClick \<notin> set (handlersOn (props f) (modalContent (props f)) t))
     \<and> emitted (run (initial v) evs) (Click i Backdrop)
          = (if arg_closeOnBackdropClick (props f) then [Invoke i (onClose (props f))] else [])"
  by (auto simp: clicks_modalContent handlers_modalContent emitted_Click [OF consistent_run])

theorem C5_interior_click_dismisses_only_by_button_witness:
  "map_of (fibers (run (initial ''auto'') [Render 0 (confirmModal 7)])) 0
     = Some \<lparr>props = confirmModal 7, escapeCleanup = Some 7, overflowCleanup = True\<rparr>
   \<and> isOpen (confirmModal 7) \<and> arg_closeOnBackdropClick (confirmModal 7)
   \<and> Children \<noteq> Backdrop
   \<and> emitted (run (initial ''auto'') [Render 0 (confirmModal 7)]) (Click 0 Children) = []
   \<and> handleBackdropClick \<notin> set (handlersOn (confirmModal 7) (modalContent (confirmModal 7)) Children)
   \<and> CloseIcon \<noteq> Backdrop
   \<and> emitted (run (initial ''auto'') [Render 0 (confirmModal 7)]) (Click 0 CloseIcon) = [Invoke 0 7]
   \<and> handleBackdropClick \<notin> set (handlersOn (confirmModal 7) (modalContent (confirmModal 7)) CloseIcon)
   \<and> emitted (run (initial ''auto'') [Render 0 (confirmModal 7)]) (Click 0 Backdrop) = [Invoke 0 7]"
proof -
  have a: "isOpen (confirmModal 7)" "onClose (confirmModal 7) = 7"
    "arg_closeOnBackdropClick (confirmModal 7)"
    by (simp_all add: confirmModal_def arg_closeOnBackdropClick_def)
  have b: "map_of (fibers (run (initial ''auto'') [Render 0 (confirmModal 7)])) 0
     = Some \<lparr>props = confirmModal 7, escapeCleanup = Some 7, overflowCleanup = True\<rparr>"
    by code_simp
  from a b
    C5_interior_click_dismisses_only_by_button
       [of "''auto''" "[Render 0 (confirmModal 7)]" 0
           "\<lparr>props = confirmModal 7, escapeCleanup = Some 7, overflowCleanup = True\<rparr>" Children]
    C5_interior_click_dismisses_only_by_button
       [of "''auto''" "[Render 0 (confirmModal 7)]" 0
           "\<lparr>props = confirmModal 7, escapeCleanup = Some 7, overflowCleanup = True\<rparr>" CloseIcon]
  show ?thesis by simp
qed

text \<open>
  The close button sits inside the dialog panel, and a click on it does call
  \<^verbatim>\<open>onClose\<close>: not every click on the dialog's interior leaves the callback alone.
\<close>

theorem C5_interior_click_never_dismisses_counterexample:
  "pathParts (modalContent (confirmModal 7)) CloseButton = [Backdrop, Dialog, CloseButton]
   \<and> instance_open (run (initial ''auto'') [Render 0 (confirmModal 7)]) 0
   \<and> emitted (run (initial ''auto'') [Render 0 (confirmModal 7)]) (Click 0 CloseButton)
        = [Invoke 0 7]
   \<and> emitted (run (initial ''auto'') [Render 0 (confirmModal 7)]) (Click 0 CloseButton) \<noteq> []"
  by code_simp

subsection \<open>C8: a dismissal only asks the caller to close\<close>

lemma clickOn_requests:
  "set (clickOn p (modalContent p) t) \<subseteq> {onClose p}"
  by (auto simp: clicks_modalContent)

lemma listener_is_request:
  assumes "consistent v w" "(j, cb) \<in> set (keydownListeners w)"
  shows "closeRequest w (Invoke j cb)"
proof -
  from assms(2) have "(j, cb) \<in> set (filter (\<lambda>l. fst l = j) (keydownListeners w))"
    by simp
  then have "(j, cb) \<in> set (old_own (fibers w) j)"
    by (simp only: listeners_of_instance [OF assms(1)])
  then show ?thesis
    by (cases "map_of (fibers w) j")
       (auto simp: old_own_consistent [OF assms(1)] closeRequest_def split: if_splits)
qed

lemma keydown_requests:
  assumes "consistent v w"
  shows "list_all (closeRequest w) (emitted w (KeyDown key))"
  using listener_is_request [OF assms]
  by (auto simp: emitted_KeyDown list_all_iff)

lemma click_requests:
  assumes "consistent v w"
  shows "list_all (closeRequest w) (emitted w (Click i t))"
proof (cases "map_of (fibers w) i")
  case None
  then show ?thesis
    by (simp add: emitted_def dispatchClick_eq split: option.splits)
next
  case (Some f)
  then show ?thesis
    using clickOn_requests [of "props f" t]
    by (auto simp: emitted_Click [OF assms Some] list_all_iff closeRequest_def)
qed

lemma step_KeyDown_frame: "step w (KeyDown key) = w\<lparr>trace := trace w @ emitted w (KeyDown key)\<rparr>"
  by (simp add: emitted_def dispatchKeydown_eq)

lemma step_Click_frame: "step w (Click i t) = w\<lparr>trace := trace w @ emitted w (Click i t)\<rparr>"
  by (simp add: emitted_def dispatchClick_eq)

text \<open>
  C8. A key press or a click changes nothing but the trace: the props of every instance,
  \<^verbatim>\<open>isOpen\<close> among them, the listeners, the overflow style and the portals stay as they
  were, and everything added to the trace is a call of the \<^verbatim>\<open>onClose\<close> that the caller
  gave to a mounted instance. Only a render by the caller closes an instance.
\<close>

theorem C8_dismissal_only_requests:
  "(e = KeyDown key \<or> e = Click i t) \<longrightarrow>
     step (run (initial v) evs) e
       = (run (initial v) evs)\<lparr>trace := trace (run (initial v) evs) @ emitted (run (initial v) evs) e\<rparr>
     \<and> fibers (step (run (initial v) evs) e) = fibers (run (initial v) evs)
     \<and> list_all (closeRequest (run (initial v) evs)) (emitted (run (initial v) evs) e)"
proof (intro impI)
  let ?w = "run (initial v) evs"
  assume e: "e = KeyDown key \<or> e = Click i t"
  then have frame: "step ?w e = ?w\<lparr>trace := trace ?w @ emitted ?w e\<rparr>"
    using step_KeyDown_frame [of ?w key] step_Click_frame [of ?w i t] by auto
  have "fibers (?w\<lparr>trace := trace ?w @ emitted ?w e\<rparr>) = fibers ?w"
    by simp
  with frame have "fibers (step ?w e) = fibers ?w"
    by simp
  moreover from e have "list_all (closeRequest ?w) (emitted ?w e)"
    using keydown_requests [OF consistent_run, of v evs key]
      click_requests [OF consistent_run, of v evs i t] by auto
  ultimately show "step ?w e = ?w\<lparr>trace := trace ?w @ emitted ?w e\<rparr>
     \<and> fibers (step ?w e) = fibers ?w \<and> list_all (closeRequest ?w) (emitted ?w e)"
    using frame by blast
qed

theorem C8_dismissal_only_requests_witness:
  "emitted (run (initial ''auto'') [Render 0 (confirmModal 7)]) (KeyDown ''Escape'') = [Invoke 0 7]
   \<and> step (run (initial ''auto'') [Render 0 (confirmModal 7)]) (KeyDown ''Escape'')
       = (run (initial ''auto'') [Render 0 (confirmModal 7)])
           \<lparr>trace := trace (run (initial ''auto'') [Render 0 (confirmModal 7)]) @ [Invoke 0 7]\<rparr>
   \<and> instance_open (step (run (initial ''auto'') [Render 0 (confirmModal 7)]) (KeyDown ''Escape'')) 0
   \<and> list_all (closeRequest (run (initial ''auto'') [Render 0 (confirmModal 7)])) [Invoke 0 7]"
proof -
  have a: "emitted (run (initial ''auto'') [Render 0 (confirmModal 7)]) (KeyDown ''Escape'')
             = [Invoke 0 7]"
    by code_simp
  have b: "instance_open (run (initial ''auto'') [Render 0 (confirmModal 7)]) 0"
    by code_simp
  from C8_dismissal_only_requests
         [of "KeyDown ''Escape''" "''Escape''" 0 Backdrop "''auto''" "[Render 0 (confirmModal 7)]"]
  show ?thesis
    using b by (simp add: a instance_open_def)
qed

subsection \<open>C6: one Escape, one request\<close>

text \<open>
  C6. In every world reached from the initial page, for an instance whose
  \<^verbatim>\<open>closeOnEscapeKey\<close> holds, one \<^verbatim>\<open>keydown\<close> event with the key Escape makes exactly one
  call of the instance's \<^verbatim>\<open>onClose\<close> while the instance is open and none while it is
  closed; an instance that is not mounted gets none either.
\<close>

theorem C6_escape_requests_once:
  "(map_of (fibers (run (initial v) evs)) i = Some f \<and> arg_closeOnEscapeKey (props f) \<longrightarrow>
      callsOf i (emitted (run (initial v) evs) (KeyDown ''Escape''))
        = (if isOpen (props f) then [onClose (props f)] else []))
   \<and> (map_of (fibers (run (initial v) evs)) i = None \<longrightarrow>
        callsOf i (emitted (run (initial v) evs) (KeyDown ''Escape'')) = [])"
  by (simp add: escape_calls [OF consistent_run])

theorem C6_escape_requests_once_witness:
  "map_of (fibers (run (initial ''auto'') [Render 0 (confirmModal 7)])) 0
     = Some \<lparr>props = confirmModal 7, escapeCleanup = Some 7, overflowCleanup = True\<rparr>
   \<and> arg_closeOnEscapeKey (confirmModal 7) \<and> isOpen (confirmModal 7)
   \<and> callsOf 0 (emitted (run (initial ''auto'') [Render 0 (confirmModal 7)]) (KeyDown ''Escape''))
        = [7]
   \<and> map_of (fibers (run (initial ''auto'')
          [Render 0 (confirmModal 7), Render 0 (closed (confirmModal 7))])) 0
     = Some \<lparr>props = closed (confirmModal 7), escapeCleanup = None, overflowCleanup = False\<rparr>
   \<and> arg_closeOnEscapeKey (closed (confirmModal 7)) \<and> \<not> isOpen (closed (confirmModal 7))
   \<and> callsOf 0 (emitted (run (initial ''auto'')
          [Render 0 (confirmModal 7), Render 0 (closed (confirmModal 7))]) (KeyDown ''Escape''))
        = []
   \<and> map_of (fibers (run (initial ''auto'') [Render 0 (confirmModal 7), Unmount 0])) 0 = None
   \<and> callsOf 0 (emitted (run (initial ''auto'') [Render 0 (confirmModal 7), Unmount 0])
          (KeyDown ''Escape'')) = []"
proof -
  have a: "arg_closeOnEscapeKey (confirmModal 7)" "isOpen (confirmModal 7)"
    "onClose (confirmModal 7) = 7"
    "arg_closeOnEscapeKey (closed (confirmModal 7))" "\<not> isOpen (closed (confirmModal 7))"
    by (simp_all add: confirmModal_def closed_def arg_closeOnEscapeKey_def)
  have b: "map_of (fibers (run (initial ''auto'') [Render 0 (confirmModal 7)])) 0
     = Some \<lparr>props = confirmModal 7, escapeCleanup = Some 7, overflowCleanup = True\<rparr>"
    by code_simp
  have c: "map_of (fibers (run (initial ''auto'')
          [Render 0 (confirmModal 7), Render 0 (closed (confirmModal 7))])) 0
     = Some \<lparr>props = closed (confirmModal 7), escapeCleanup = None, overflowCleanup = False\<rparr>"
    by code_simp
  have d: "map_of (fibers (run (initial ''auto'') [Render 0 (confirmModal 7), Unmount 0])) 0 = None"
    by code_simp
  from a b C6_escape_requests_once
       [of "''auto''" "[Render 0 (confirmModal 7)]" 0
           "\<lparr>props = confirmModal 7, escapeCleanup = Some 7, overflowCleanup = True\<rparr>"]
  have 1: "callsOf 0 (emitted (run (initial ''auto'') [Render 0 (confirmModal 7)])
             (KeyDown ''Escape'')) = [7]"
    by simp
  from a c C6_escape_requests_once
       [of "''auto''" "[Render 0 (confirmModal 7), Render 0 (closed (confirmModal 7))]" 0
         "\<lparr>props = closed (confirmModal 7), escapeCleanup = None, overflowCleanup = False\<rparr>"]
  have 2: "callsOf 0 (emitted (run (initial ''auto'')
          [Render 0 (confirmModal 7), Render 0 (closed (confirmModal 7))]) (KeyDown ''Escape''))
        = []"
    by simp
  from d C6_escape_requests_once
       [of "''auto''" "[Render 0 (confirmModal 7), Unmount 0]" 0]
  have 3: "callsOf 0 (emitted (run (initial ''auto'') [Render 0 (confirmModal 7), Unmount 0])
          (KeyDown ''Escape'')) = []"
    by simp
  from a b c d 1 2 3 show ?thesis by simp
qed

subsection \<open>C4: the resources of an instance\<close>

text \<open>
  C4 asks that the scroll lock exist for every instance exactly while it is open. The
  code loses it: instance 2 opens and the body's overflow style becomes \<^verbatim>\<open>'hidden'\<close>;
  instance 3 opens and is then unmounted, and its cleanup writes \<^verbatim>\<open>'unset'\<close>; instance 2
  is still open, still has its one \<^verbatim>\<open>keydown\<close> listener, and the page scrolls again.
\<close>

theorem C4_open_instance_without_scroll_lock:
  "bodyOverflow (run (initial ''auto'') [Render 2 (confirmModal 7)]) = ''hidden''
   \<and> bodyOverflow (run (initial ''auto'') [Render 2 (confirmModal 7), Render 3 (confirmModal 8)])
        = ''hidden''
   \<and> instance_open (run (initial ''auto'')
        [Render 2 (confirmModal 7), Render 3 (confirmModal 8), Unmount 3]) 2
   \<and> \<not> instance_open (run (initial ''auto'')
        [Render 2 (confirmModal 7), Render 3 (confirmModal 8), Unmount 3]) 3
   \<and> keydownListeners (run (initial ''auto'')
        [Render 2 (confirmModal 7), Render 3 (confirmModal 8), Unmount 3]) = [(2, 7)]
   \<and> bodyOverflow (run (initial ''auto'')
        [Render 2 (confirmModal 7), Render 3 (confirmModal 8), Unmount 3]) = ''unset''"
  by code_simp

subsection \<open>C1: the overflow style after every instance has closed\<close>

lemma no_lock_pending:
  assumes "lockCount w = 0"
  shows "\<not> pendingOverflowCleanup w i"
proof
  assume p: "pendingOverflowCleanup w i"
  then obtain f where f: "map_of (fibers w) i = Some f" "overflowCleanup f"
    by (auto simp: pendingOverflowCleanup_def split: option.splits)
  then have "(i, f) \<in> set (filter (\<lambda>(i, f). overflowCleanup f) (fibers w))"
    by (auto dest: map_of_SomeD)
  with assms show False
    by (simp add: lockCount_def)
qed

text \<open>
  C1, as the code has it. After any sequence of events from the initial page, when no
  instance is open, no instance holds the scroll lock, and the overflow style of the body
  is the literal \<^verbatim>\<open>'unset'\<close> if the lock was ever taken in the sequence (and the page's
  own style if it never was): the cleanup writes a constant, it restores nothing captured.
\<close>

theorem C1_all_closed_unsets_overflow:
  "numOpen (run (initial v) evs) = 0 \<longrightarrow>
     lockCount (run (initial v) evs) = 0
     \<and> bodyOverflow (run (initial v) evs)
         = (if locked_once (run (initial v) evs) then ''unset'' else v)"
proof
  let ?w = "run (initial v) evs"
  assume "numOpen ?w = 0"
  then have l: "lockCount ?w = 0"
    by (simp add: lockCount_numOpen [OF consistent_run])
  have "overflow_ok v ?w"
    using consistent_run [of v evs] by (simp add: consistent_def)
  with no_lock_pending [OF l] have "bodyOverflow ?w = (if locked_once ?w then ''unset'' else v)"
    by (auto simp: overflow_ok_def)
  with l show "lockCount ?w = 0 \<and> bodyOverflow ?w = (if locked_once ?w then ''unset'' else v)"
    by simp
qed

theorem C1_all_closed_unsets_overflow_witness:
  "numOpen (run (initial ''auto'') [Render 0 (confirmModal 7), Render 0 (closed (confirmModal 7))]) = 0
   \<and> locked_once (run (initial ''auto'') [Render 0 (confirmModal 7), Render 0 (closed (confirmModal 7))])
   \<and> lockCount (run (initial ''auto'') [Render 0 (confirmModal 7), Render 0 (closed (confirmModal 7))]) = 0
   \<and> bodyOverflow (run (initial ''auto'') [Render 0 (confirmModal 7), Render 0 (closed (confirmModal 7))])
        = ''unset''"
proof -
  have a: "numOpen (run (initial ''auto'')
             [Render 0 (confirmModal 7), Render 0 (closed (confirmModal 7))]) = 0"
    by code_simp
  have b: "locked_once (run (initial ''auto'')
             [Render 0 (confirmModal 7), Render 0 (closed (confirmModal 7))])"
    by code_simp
  from a b C1_all_closed_unsets_overflow
        [of "''auto''" "[Render 0 (confirmModal 7), Render 0 (closed (confirmModal 7))]"]
  show ?thesis by simp
qed

text \<open>
  A page whose style was \<^verbatim>\<open>'auto'\<close> does not get it back when its only instance has opened
  and closed.
\<close>

theorem C1_restores_captured_style_counterexample:
  "numOpen (run (initial ''auto'') [Render 0 (confirmModal 7), Render 0 (closed (confirmModal 7))]) = 0
   \<and> bodyOverflow (initial ''auto'') = ''auto''
   \<and> bodyOverflow (run (initial ''auto'') [Render 0 (confirmModal 7), Render 0 (closed (confirmModal 7))])
        \<noteq> ''auto''"
  by code_simp

subsection \<open>C2: counting the holders of the scroll lock\<close>

text \<open>
  C2 asks that only the last release unlock the page. The code does not wait for it:
  opening instance 2, then 3, then closing 3, then 2, the holders of the lock number
  0, 1, 2, 1, 0, but the cleanup of instance 3 already writes \<^verbatim>\<open>'unset'\<close> over
  \<^verbatim>\<open>'hidden'\<close> while instance 2 is open and still counted.
\<close>

theorem C2_release_before_last_unlocks_page:
  "[lockCount (initial ''auto''),
    lockCount (run (initial ''auto'') [Render 2 (confirmModal 7)]),
    lockCount (run (initial ''auto'') [Render 2 (confirmModal 7), Render 3 (confirmModal 8)]),
    lockCount (run (initial ''auto'')
      [Render 2 (confirmModal 7), Render 3 (confirmModal 8), Render 3 (closed (confirmModal 8))]),
    lockCount (run (initial ''auto'')
      [Render 2 (confirmModal 7), Render 3 (confirmModal 8), Render 3 (closed (confirmModal 8)),
       Render 2 (closed (confirmModal 7))])]
     = [0, 1, 2, 1, 0]
   \<and> bodyOverflow (run (initial ''auto'') [Render 2 (confirmModal 7), Render 3 (confirmModal 8)])
        = ''hidden''
   \<and> instance_open (run (initial ''auto'')
      [Render 2 (confirmModal 7), Render 3 (confirmModal 8), Render 3 (closed (confirmModal 8))]) 2
   \<and> bodyOverflow (run (initial ''auto'')
      [Render 2 (confirmModal 7), Render 3 (confirmModal 8), Render 3 (closed (confirmModal 8))])
        = ''unset''"
  by code_simp

subsection \<open>C3: the order of the side effects in one transition\<close>










end
